theory Spec2Isabelle
  imports Complex_Main
begin

section \<open>Constants of js/app.js\<close>

text \<open>
  \<^verbatim>\<open>const MAX_REQUESTS = 10; const TIME_WINDOW = 60000;
  const MAX_INPUT = 20; const MIN_INPUT = 1;\<close>
  Timestamps are the integers \<^verbatim>\<open>Date.now()\<close> returns (milliseconds since the epoch).
\<close>

definition MAX_REQUESTS :: nat where
  "MAX_REQUESTS = 10"

definition TIME_WINDOW :: int where
  "TIME_WINDOW = 60000"

definition MAX_INPUT :: int where
  "MAX_INPUT = 20"

definition MIN_INPUT :: int where
  "MIN_INPUT = 1"

section \<open>User-visible messages\<close>

text \<open>
  The message literals of the source start with symbols outside ASCII, so each literal
  is one constructor:
  \<^item> \<open>MustBeNumber\<close>: warning sign, then \<^verbatim>\<open>Invalid input: Must be a number\<close>;
  \<^item> \<open>OutOfRange\<close>: warning sign, then \<^verbatim>\<open>Input out of range: 1-20 allowed\<close>;
  \<^item> \<open>IntegerRequired\<close>: warning sign, then \<^verbatim>\<open>Invalid input: Integer required\<close>;
  \<^item> \<open>InputValidated\<close>: check mark, then \<^verbatim>\<open>Input validated\<close>;
  \<^item> \<open>RateLimitExceeded\<close>: warning sign, then
    \<^verbatim>\<open>Rate limit exceeded: Max 10 requests per minute\<close>.
\<close>

datatype message =
    MustBeNumber
  | OutOfRange
  | IntegerRequired
  | InputValidated
  | RateLimitExceeded

section \<open>JavaScript values and string primitives\<close>

text \<open>
  A string is a list of code units; \<open>char\<close> holds the code units below 256, which covers
  every character the source tests for. \<open>parseInt\<close> returns an integer or NaN.
  The integers are exact: the double that \<^verbatim>\<open>parseInt\<close> rounds a long digit string
  to compares with 1 and 20 as the exact integer does, and a value that is kept lies in
  1..20. \<^verbatim>\<open>parseInt("-0")\<close> is \<open>-0\<close>, which compares as \<open>0\<close>.
\<close>

datatype jsnum = NaN | Num int

text \<open>\<^verbatim>\<open>a < b\<close> on numbers: false as soon as one side is NaN.\<close>

definition js_less :: "jsnum \<Rightarrow> jsnum \<Rightarrow> bool" where
  "js_less a b = (case (a, b) of (Num x, Num y) \<Rightarrow> x < y | _ \<Rightarrow> False)"

definition isDecimalDigit :: "char \<Rightarrow> bool" where
  "isDecimalDigit c = (c \<in> set ''0123456789'')"

definition isHexDigit :: "char \<Rightarrow> bool" where
  "isHexDigit c = (c \<in> set ''0123456789abcdefABCDEF'')"

definition isOctalDigit :: "char \<Rightarrow> bool" where
  "isOctalDigit c = (c \<in> set ''01234567'')"

definition isBinaryDigit :: "char \<Rightarrow> bool" where
  "isBinaryDigit c = (c \<in> set ''01'')"

text \<open>
  White space and line terminators of ECMAScript among the code units below 256: TAB, LF,
  VT, FF, CR, SP and NBSP.
\<close>

definition isStrWhiteSpaceChar :: "char \<Rightarrow> bool" where
  "isStrWhiteSpaceChar c =
     (c \<in> {CHR 0x09, CHR 0x0A, CHR 0x0B, CHR 0x0C, CHR 0x0D, CHR 0x20, CHR 0xA0})"

definition trimStart :: "string \<Rightarrow> string" where
  "trimStart s = dropWhile isStrWhiteSpaceChar s"

definition trimString :: "string \<Rightarrow> string" where
  "trimString s = rev (trimStart (rev (trimStart s)))"

definition stripSign :: "string \<Rightarrow> string" where
  "stripSign s =
     (case s of [] \<Rightarrow> [] | c # r \<Rightarrow> if c = CHR ''+'' \<or> c = CHR ''-'' then r else s)"

definition isDigits :: "string \<Rightarrow> bool" where
  "isDigits s = (s \<noteq> [] \<and> list_all isDecimalDigit s)"

text \<open>An optional ExponentPart: \<^verbatim>\<open>e\<close> or \<^verbatim>\<open>E\<close>, an optional sign, digits.\<close>

definition isExponentPartOpt :: "string \<Rightarrow> bool" where
  "isExponentPartOpt s =
     (case s of
        [] \<Rightarrow> True
      | e # r \<Rightarrow> (e = CHR ''e'' \<or> e = CHR ''E'') \<and> isDigits (stripSign r))"

text \<open>
  StrUnsignedDecimalLiteral: \<^verbatim>\<open>Infinity\<close>, or digits with an optional fraction and
  exponent, or a fraction that starts with the point.
\<close>

definition isStrUnsignedDecimalLiteral :: "string \<Rightarrow> bool" where
  "isStrUnsignedDecimalLiteral s =
     (s = ''Infinity'' \<or>
      (let ip = takeWhile isDecimalDigit s; r1 = dropWhile isDecimalDigit s in
       case r1 of
         [] \<Rightarrow> ip \<noteq> []
       | c # r \<Rightarrow>
           if c = CHR ''.''
           then (let fp = takeWhile isDecimalDigit r; r2 = dropWhile isDecimalDigit r
                 in (ip \<noteq> [] \<or> fp \<noteq> []) \<and> isExponentPartOpt r2)
           else ip \<noteq> [] \<and> isExponentPartOpt r1))"

text \<open>NonDecimalIntegerLiteral: \<^verbatim>\<open>0x\<close>, \<^verbatim>\<open>0o\<close> or \<^verbatim>\<open>0b\<close> and digits of that base.\<close>

definition isNonDecimalIntegerLiteral :: "string \<Rightarrow> bool" where
  "isNonDecimalIntegerLiteral s =
     (case s of
        z # p # ds \<Rightarrow>
          z = CHR ''0'' \<and> ds \<noteq> [] \<and>
          ((p = CHR ''x'' \<or> p = CHR ''X'') \<and> list_all isHexDigit ds \<or>
           (p = CHR ''o'' \<or> p = CHR ''O'') \<and> list_all isOctalDigit ds \<or>
           (p = CHR ''b'' \<or> p = CHR ''B'') \<and> list_all isBinaryDigit ds)
      | _ \<Rightarrow> False)"

text \<open>
  StringNumericLiteral, the grammar of \<^verbatim>\<open>ToNumber\<close> on a string: white space only, or a
  literal between optional white space. Only a non-decimal literal takes no sign.
\<close>

definition isStringNumericLiteral :: "string \<Rightarrow> bool" where
  "isStringNumericLiteral s =
     (let t = trimString s in
      t = [] \<or> isNonDecimalIntegerLiteral t \<or> isStrUnsignedDecimalLiteral (stripSign t))"

text \<open>
  \<^verbatim>\<open>isNaN(value)\<close> on a string: \<^verbatim>\<open>ToNumber\<close> gives NaN exactly when the string is
  not a StringNumericLiteral.
\<close>

definition isNaN :: "string \<Rightarrow> bool" where
  "isNaN s = (\<not> isStringNumericLiteral s)"

definition digitValue :: "char \<Rightarrow> int" where
  "digitValue c = int (of_char c) - 48"

definition digitsValue :: "string \<Rightarrow> int" where
  "digitsValue ds = foldl (\<lambda>v c. 10 * v + digitValue c) 0 ds"

text \<open>
  \<^verbatim>\<open>parseInt(inputString, 10)\<close>: skip leading white space, read a sign, take the longest
  prefix of decimal digits; NaN when there is none.
\<close>

definition parseInt :: "string \<Rightarrow> jsnum" where
  "parseInt inputString =
     (let S = trimStart inputString;
          sign = (if S \<noteq> [] \<and> hd S = CHR ''-'' then - 1 else 1);
          S = (if S \<noteq> [] \<and> (hd S = CHR ''+'' \<or> hd S = CHR ''-'') then tl S else S);
          Z = takeWhile isDecimalDigit S
      in if Z = [] then NaN else Num (sign * digitsValue Z))"

text \<open>Decimal digits of a natural number, and \<^verbatim>\<open>String(k)\<close> for an integer \<open>k\<close>.\<close>

fun nat_digits :: "nat \<Rightarrow> string" where
  "nat_digits n =
     (if n < 10 then [''0123456789'' ! n]
      else nat_digits (n div 10) @ [''0123456789'' ! (n mod 10)])"

definition int_to_string :: "int \<Rightarrow> string" where
  "int_to_string k = (if k < 0 then CHR ''-'' # nat_digits (nat (- k)) else nat_digits (nat k))"

section \<open>validateInput\<close>

text \<open>
  The result object is \<^verbatim>\<open>{valid: false, message}\<close> or
  \<^verbatim>\<open>{valid: true, message, value: num}\<close>. The argument is the \<^verbatim>\<open>value\<close> of the input
  element, a string, so \<^verbatim>\<open>value === null\<close> is never true.
\<close>

datatype validation = Invalid message | Valid message jsnum

fun valid :: "validation \<Rightarrow> bool" where
  "valid (Invalid m) = False"
| "valid (Valid m num) = True"

fun message_of :: "validation \<Rightarrow> message" where
  "message_of (Invalid m) = m"
| "message_of (Valid m num) = m"

definition validateInput :: "string \<Rightarrow> validation" where
  "validateInput v =
     (if isNaN v \<or> v = [] then Invalid MustBeNumber
      else
        let num = parseInt v in
        if js_less num (Num MIN_INPUT) \<or> js_less (Num MAX_INPUT) num then Invalid OutOfRange
        else if CHR ''.'' \<in> set v \<or> CHR '','' \<in> set v then Invalid IntegerRequired
        else Valid InputValidated num)"

section \<open>checkRateLimit\<close>

text \<open>
  \<^verbatim>\<open>let requestHistory = [];\<close> is the only state of the limiter; the model passes it
  in and returns it updated. The clock read \<^verbatim>\<open>Date.now()\<close> is the argument \<open>now\<close>.
  The result object is \<^verbatim>\<open>{allowed: false, message}\<close> or \<^verbatim>\<open>{allowed: true}\<close>.
\<close>

datatype rate_limit_check = Denied message | Allowed

fun allowed :: "rate_limit_check \<Rightarrow> bool" where
  "allowed (Denied m) = False"
| "allowed Allowed = True"

text \<open>\<^verbatim>\<open>requestHistory.filter(timestamp => now - timestamp < TIME_WINDOW)\<close>\<close>

definition prune :: "int \<Rightarrow> int list \<Rightarrow> int list" where
  "prune now requestHistory = filter (\<lambda>timestamp. now - timestamp < TIME_WINDOW) requestHistory"

definition checkRateLimit :: "int \<Rightarrow> int list \<Rightarrow> rate_limit_check \<times> int list" where
  "checkRateLimit now requestHistory =
     (let requestHistory = prune now requestHistory in
      if length requestHistory \<ge> MAX_REQUESTS
      then (Denied RateLimitExceeded, requestHistory)
      else (Allowed, requestHistory @ [now]))"

text \<open>
  A run of the limiter: one call per clock reading, in order, each on the store the
  previous call left. It returns the answers in call order and the final store.
\<close>

fun calls :: "int list \<Rightarrow> int list \<Rightarrow> bool list \<times> int list" where
  "calls [] requestHistory = ([], requestHistory)"
| "calls (now # clock) requestHistory =
     (let (r, h) = checkRateLimit now requestHistory;
          (rs, h') = calls clock h
      in (allowed r # rs, h'))"

section \<open>Numbers of the calculation\<close>

text \<open>
  The numbers of the calculation are finite doubles, read as the reals they denote. The
  arithmetic of the host is a parameter of the model: the constant \<^verbatim>\<open>Math.PI\<close>, the
  function \<^verbatim>\<open>Math.sin\<close>, the rounded product and quotient of two numbers, and
  \<^verbatim>\<open>Number::toString\<close>, which \<^verbatim>\<open>toFixed\<close> falls back to from \<open>10^21\<close> on.
  The general theorems below hold for any such arithmetic.
\<close>

record builtins =
  Math_PI :: real
  Math_sin :: "real \<Rightarrow> real"
  num_times :: "real \<Rightarrow> real \<Rightarrow> real"
  num_divide :: "real \<Rightarrow> real \<Rightarrow> real"
  Number_toString :: "real \<Rightarrow> string"

text \<open>
  Real arithmetic as one such host, to evaluate the definitions at concrete inputs.
  Its \<open>Number_toString\<close> is never reached there: \<open>2 * sin y\<close> stays below \<open>10^21\<close>.
\<close>

definition exact :: builtins where
  "exact = \<lparr>Math_PI = pi, Math_sin = sin, num_times = (*), num_divide = (/),
     Number_toString = (\<lambda>x. [])\<rparr>"

text \<open>
  \<^verbatim>\<open>Number.prototype.toFixed(f)\<close> on a finite number \<open>x\<close>: the sign, then the integer
  \<open>n\<close> nearest to \<open>x * 10^f\<close> (the larger one of two), written in decimal, padded with
  zeros to \<open>f + 1\<close> digits, with the point before the last \<open>f\<close> digits.
\<close>

definition toFixed :: "builtins \<Rightarrow> nat \<Rightarrow> real \<Rightarrow> string" where
  "toFixed B f x =
     (let s = (if x < 0 then ''-'' else []);
          x = (if x < 0 then - x else x)
      in if x \<ge> 10 ^ 21 then s @ Number_toString B x
         else
           let n = \<lfloor>x * 10 ^ f + 1 / 2\<rfloor>;
               m = nat_digits (nat n);
               m = (if f \<noteq> 0
                    then (let k = length m;
                              m = (if k \<le> f then replicate (f + 1 - k) CHR ''0'' @ m else m);
                              k = (if k \<le> f then f + 1 else k)
                          in take (k - f) m @ ''.'' @ drop (k - f) m)
                    else m)
           in s @ m)"

text \<open>
  A sign, digits, a point and exactly \<open>f\<close> digits: the shape of a number written with
  \<open>f\<close> decimal digits.
\<close>

definition has_decimals :: "nat \<Rightarrow> string \<Rightarrow> bool" where
  "has_decimals f s =
     (let u = (case s of [] \<Rightarrow> [] | c # r \<Rightarrow> if c = CHR ''-'' then r else s);
          ip = takeWhile isDecimalDigit u;
          r = dropWhile isDecimalDigit u
      in ip \<noteq> [] \<and>
         (case r of
            [] \<Rightarrow> False
          | c # fp \<Rightarrow> c = CHR ''.'' \<and> length fp = f \<and> list_all isDecimalDigit fp))"

section \<open>calculateElements and the element loop\<close>

text \<open>
  Both js/app.js and the older script compute
  \<^verbatim>\<open>ak = 2 * Math.sin(((2 * k - 1) * Math.PI) / (2 * n))\<close>.
  \<open>k\<close> and \<open>n\<close> are integers, for which \<open>2 * k - 1\<close> and \<open>2 * n\<close> are exact.
\<close>

definition ak :: "builtins \<Rightarrow> int \<Rightarrow> int \<Rightarrow> real" where
  "ak B k n =
     num_times B 2
       (Math_sin B
          (num_divide B (num_times B (of_int (2 * k - 1)) (Math_PI B)) (of_int (2 * n))))"

text \<open>
  \<^verbatim>\<open>{type: elemento, index: k, value: result.toFixed(4)}\<close>. \<^verbatim>\<open>parseFloat(ak)\<close> writes
  the number \<open>ak\<close> as a string and reads it back, which gives \<open>ak\<close> again.
\<close>

record filter_element =
  type :: string
  index :: int
  value_str :: string

definition calculateElements :: "builtins \<Rightarrow> int \<Rightarrow> int \<Rightarrow> filter_element" where
  "calculateElements B k n =
     (let elemento = (if k mod 2 = 0 then ''capacitor'' else ''inductor'');
          result = ak B k n
      in \<lparr>type = elemento, index = k, value_str = toFixed B 4 result\<rparr>)"

text \<open>
  \<^verbatim>\<open>for (let k = 1; k <= n; k++) { elements.push(calculateElements(k, n)); }\<close>
\<close>

function elements_loop ::
  "builtins \<Rightarrow> int \<Rightarrow> int \<Rightarrow> filter_element list \<Rightarrow> filter_element list" where
  "elements_loop B k n elements =
     (if k \<le> n then elements_loop B (k + 1) n (elements @ [calculateElements B k n])
      else elements)"
  by pat_completeness auto
termination
  by (relation "measure (\<lambda>(B, k, n, elements). nat (n + 1 - k))") auto

text \<open>
  The loop on \<^verbatim>\<open>n = validation.value\<close>, starting from \<^verbatim>\<open>elements = []\<close> and \<open>k = 1\<close>.
  For NaN the test \<^verbatim>\<open>k <= n\<close> is false at once.
\<close>

definition compute_elements :: "builtins \<Rightarrow> jsnum \<Rightarrow> filter_element list" where
  "compute_elements B n = (case n of NaN \<Rightarrow> [] | Num n \<Rightarrow> elements_loop B 1 n [])"

section \<open>The page: renderResults and showValidationMessage\<close>

text \<open>
  \<^verbatim>\<open>sanitizeHTML\<close> sets a text node and reads it back as markup: the serialisation of a
  text node escapes \<^verbatim>\<open>&\<close>, \<^verbatim>\<open><\<close>, \<^verbatim>\<open>>\<close> and the no-break space.
\<close>

definition escape_char :: "char \<Rightarrow> string" where
  "escape_char c =
     (if c = CHR ''&'' then ''&amp;''
      else if c = CHR ''<'' then ''&lt;''
      else if c = CHR ''>'' then ''&gt;''
      else if c = CHR 0xA0 then ''&nbsp;''
      else [c])"

definition sanitizeHTML :: "string \<Rightarrow> string" where
  "sanitizeHTML str = concat (map escape_char str)"

text \<open>
  The two icons are symbols outside ASCII: the high voltage sign for a capacitor, the
  electric plug for anything else.
\<close>

datatype glyph = HighVoltage | ElectricPlug

text \<open>
  One \<^verbatim>\<open>div\<close> of the result list: its classes, the text of its icon \<^verbatim>\<open>span\<close> and the
  text of its text \<^verbatim>\<open>span\<close>.
\<close>

record result_div =
  classList :: "string list"
  icon_textContent :: glyph
  text_textContent :: string

text \<open>A callback waiting in \<^verbatim>\<open>setTimeout\<close>, with its delay in milliseconds.\<close>

datatype callback = Add_show nat | Hide_validation

record validation_box =
  textContent :: "message option"
  className :: string
  display :: string

datatype jsval = JString string | JNumber jsnum

text \<open>
  The steps of the submit handler, in the order they run; \<open>trace\<close> below records them
  and nothing reads it.
\<close>

datatype call =
    Call_checkRateLimit
  | Call_validateInput
  | Call_calculateElements
  | Call_renderResults
  | Call_showValidationMessage
  | Call_console_log

text \<open>
  The state the handlers work on: the limiter's store; every \<^verbatim>\<open>div\<close> created so far,
  named by its position in \<open>nodes\<close>; the children of \<^verbatim>\<open>#resultField\<close>, in order; the
  \<^verbatim>\<open>#inputValidation\<close> box; the pending timers; and what was written to the console.
\<close>

record page =
  requestHistory :: "int list"
  nodes :: "result_div list"
  resultField :: "nat list"
  inputValidation :: validation_box
  timers :: "(nat \<times> callback) list"
  console :: "(string \<times> (string \<times> jsval) list) list"
  trace :: "call list"

text \<open>The \<^verbatim>\<open>div\<close> that \<^verbatim>\<open>renderResults\<close> builds for one element.\<close>

definition result_item :: "filter_element \<Rightarrow> result_div" where
  "result_item element =
     \<lparr>classList = [''result-item''],
      icon_textContent = (if type element = ''capacitor'' then HighVoltage else ElectricPlug),
      text_textContent =
        ''El '' @ sanitizeHTML (type element) @ '' '' @ int_to_string (index element)
          @ '' vale '' @ value_str element\<rparr>"

text \<open>
  The body of the \<^verbatim>\<open>forEach\<close>: build the \<^verbatim>\<open>div\<close>, append it to \<^verbatim>\<open>#resultField\<close>, and
  schedule the class \<^verbatim>\<open>show\<close> after \<^verbatim>\<open>index * 50\<close> ms.
\<close>

definition render_element :: "filter_element \<Rightarrow> nat \<Rightarrow> page \<Rightarrow> page" where
  "render_element element i st =
     (let resultDiv = length (nodes st) in
      st\<lparr>nodes := nodes st @ [result_item element],
         resultField := resultField st @ [resultDiv],
         timers := timers st @ [(i * 50, Add_show resultDiv)]\<rparr>)"

fun forEach_render :: "filter_element list \<Rightarrow> nat \<Rightarrow> page \<Rightarrow> page" where
  "forEach_render [] i st = st"
| "forEach_render (element # elements) i st =
     forEach_render elements (i + 1) (render_element element i st)"

text \<open>\<^verbatim>\<open>resultField.textContent = ''\<close> removes every child, then the \<^verbatim>\<open>forEach\<close> runs.\<close>

definition renderResults :: "filter_element list \<Rightarrow> page \<Rightarrow> page" where
  "renderResults elements st =
     forEach_render elements 0
       (st\<lparr>resultField := [], trace := trace st @ [Call_renderResults]\<rparr>)"

text \<open>What \<^verbatim>\<open>#resultField\<close> shows: its children, in order.\<close>

definition displayed :: "page \<Rightarrow> result_div list" where
  "displayed st = map (\<lambda>resultDiv. nodes st ! resultDiv) (resultField st)"

definition showValidationMessage :: "message \<Rightarrow> bool \<Rightarrow> page \<Rightarrow> page" where
  "showValidationMessage m isError st =
     st\<lparr>inputValidation :=
          \<lparr>textContent = Some m,
           className = ''input-validation '' @ (if isError then ''error'' else ''success''),
           display = ''block''\<rparr>,
        timers := timers st @ (if \<not> isError then [(2000, Hide_validation)] else []),
        trace := trace st @ [Call_showValidationMessage]\<rparr>"

text \<open>
  A pending callback runs: \<^verbatim>\<open>resultDiv.classList.add('show')\<close> on the \<^verbatim>\<open>div\<close> the
  closure holds, or \<^verbatim>\<open>inputValidation.style.display = 'none'\<close>. Every \<^verbatim>\<open>div\<close> a
  callback holds was created before, so the other branch of the test is never taken.
\<close>

definition fire :: "callback \<Rightarrow> page \<Rightarrow> page" where
  "fire cb st =
     (case cb of
        Add_show resultDiv \<Rightarrow>
          (if resultDiv < length (nodes st)
           then st\<lparr>nodes := (nodes st)
                  [resultDiv := (nodes st ! resultDiv)
                     \<lparr>classList :=
                        (if ''show'' \<in> set (classList (nodes st ! resultDiv))
                         then classList (nodes st ! resultDiv)
                         else classList (nodes st ! resultDiv) @ [''show''])\<rparr>]\<rparr>
           else st)
      | Hide_validation \<Rightarrow> st\<lparr>inputValidation := (inputValidation st)\<lparr>display := ''none''\<rparr>\<rparr>)"

section \<open>The submit handler\<close>

text \<open>
  The audit record, an object literal with five keys in this order.
\<close>

definition audit_record ::
  "string \<Rightarrow> jsnum \<Rightarrow> filter_element list \<Rightarrow> int list \<Rightarrow> (string \<times> jsval) list" where
  "audit_record timestamp n elements history =
     [(''timestamp'', JString timestamp),
      (''action'', JString ''CALCULATION_PERFORMED''),
      (''input'', JNumber n),
      (''elements'', JNumber (Num (int (length elements)))),
      (''requestCount'', JNumber (Num (int (length history))))]"

text \<open>
  What the handler reads from outside is its argument: \<open>now\<close> is the clock that
  \<^verbatim>\<open>checkRateLimit\<close> reads, \<open>timestamp\<close> is the string \<^verbatim>\<open>new Date().toISOString()\<close>
  returns when the audit record is built, and \<open>input\<close> is \<^verbatim>\<open>nelement.value\<close>.
  \<^verbatim>\<open>event.preventDefault()\<close> only keeps the browser from leaving the page.
\<close>

definition submit :: "builtins \<Rightarrow> int \<Rightarrow> string \<Rightarrow> string \<Rightarrow> page \<Rightarrow> page" where
  "submit B now timestamp input st =
     (let (rateLimitCheck, h) = checkRateLimit now (requestHistory st);
          st = st\<lparr>requestHistory := h, trace := trace st @ [Call_checkRateLimit]\<rparr>
      in case rateLimitCheck of
           Denied m \<Rightarrow> showValidationMessage m True st
         | Allowed \<Rightarrow>
             (let validation = validateInput input;
                  st = st\<lparr>trace := trace st @ [Call_validateInput]\<rparr>
              in case validation of
                   Invalid m \<Rightarrow> showValidationMessage m True st
                 | Valid m n \<Rightarrow>
                     (let elements = compute_elements B n;
                          st = st\<lparr>trace := trace st @ [Call_calculateElements]\<rparr>;
                          st = renderResults elements st
                      in st\<lparr>console := console st @
                              [(''[SECURITY AUDIT]'',
                                audit_record timestamp n elements (requestHistory st))],
                            trace := trace st @ [Call_console_log]\<rparr>)))"

text \<open>
  A page on which nothing has happened yet, to evaluate the handlers on. The message
  box is hidden; what it holds at load is the markup's business.
\<close>

definition blank_page :: page where
  "blank_page =
     \<lparr>requestHistory = [], nodes = [], resultField = [],
      inputValidation = \<lparr>textContent = None, className = ''input-validation'', display = ''none''\<rparr>,
      timers = [], console = [], trace = []\<rparr>"

section \<open>The older script\<close>

text \<open>
  The unnamed older script has no validator and no limiter. Its \<^verbatim>\<open>elements(k, n)\<close>
  returns the markup of one line, and its handler empties \<^verbatim>\<open>resultField.innerHTML\<close> and
  appends one line per \<open>k\<close>. There \<open>n\<close> is the text of the input field, which
  \<^verbatim>\<open>k <= n\<close> and \<^verbatim>\<open>2 * n\<close> convert to a number; the model takes that number, an integer.
\<close>

definition elements_old :: "builtins \<Rightarrow> int \<Rightarrow> int \<Rightarrow> string" where
  "elements_old B k n =
     (let elemento = (if k mod 2 = 0 then ''capacitor'' else ''inductor'');
          result = ak B k n
      in ''El '' @ elemento @ '' '' @ int_to_string k @ '' vale '' @ toFixed B 3 result
           @ ''<br>'')"

function old_loop :: "builtins \<Rightarrow> int \<Rightarrow> int \<Rightarrow> string \<Rightarrow> string" where
  "old_loop B k n innerHTML =
     (if k \<le> n then old_loop B (k + 1) n (innerHTML @ elements_old B k n) else innerHTML)"
  by pat_completeness auto
termination
  by (relation "measure (\<lambda>(B, k, n, innerHTML). nat (n + 1 - k))") auto

definition old_submit :: "builtins \<Rightarrow> int \<Rightarrow> string" where
  "old_submit B n = old_loop B 1 n []"

section \<open>Evaluation rules\<close>

declare nat_digits.simps [simp del]
declare elements_loop.simps [simp del]
declare old_loop.simps [simp del]

lemma nat_digits_numeral [simp]:
  "nat_digits (numeral w) =
     (if numeral w < (10::nat) then [''0123456789'' ! numeral w]
      else nat_digits (numeral w div 10) @ [''0123456789'' ! (numeral w mod 10)])"
  by (rule nat_digits.simps)

lemma nat_digits_0 [simp]: "nat_digits 0 = ''0''"
  by (simp add: nat_digits.simps)

lemma nat_digits_1 [simp]: "nat_digits (Suc 0) = ''1''"
  by (simp add: nat_digits.simps)

lemma replicate_num: "replicate (numeral w) x = x # replicate (numeral w - 1) x"
  by (simp add: numeral_eq_Suc)

lemmas validate_eval =
  validateInput_def isNaN_def isStringNumericLiteral_def isNonDecimalIntegerLiteral_def
  isStrUnsignedDecimalLiteral_def isExponentPartOpt_def isDigits_def stripSign_def
  trimString_def trimStart_def isStrWhiteSpaceChar_def isDecimalDigit_def isHexDigit_def
  isOctalDigit_def isBinaryDigit_def parseInt_def digitsValue_def digitValue_def js_less_def
  MIN_INPUT_def MAX_INPUT_def Let_def

lemmas toFixed_eval = toFixed_def Let_def replicate_num

section \<open>Properties of the rate limiter\<close>

lemma prune_length: "length (prune now h) \<le> length h"
  by (simp add: prune_def)

lemma checkRateLimit_allowed:
  "allowed (fst (checkRateLimit now h)) = (length (prune now h) < MAX_REQUESTS)"
  by (simp add: checkRateLimit_def Let_def)

lemma checkRateLimit_store:
  "snd (checkRateLimit now h) =
     (if length (prune now h) < MAX_REQUESTS then prune now h @ [now] else prune now h)"
  by (simp add: checkRateLimit_def Let_def)

lemma checkRateLimit_bounded:
  "length h \<le> MAX_REQUESTS \<Longrightarrow> length (snd (checkRateLimit now h)) \<le> MAX_REQUESTS"
  using prune_length [of now h] by (simp add: checkRateLimit_store)

lemma calls_store_bounded:
  "length h \<le> MAX_REQUESTS \<Longrightarrow> length (snd (calls clock h)) \<le> MAX_REQUESTS"
proof (induction clock arbitrary: h)
  case Nil
  then show ?case by simp
next
  case (Cons now clock)
  have "length (snd (checkRateLimit now h)) \<le> MAX_REQUESTS"
    using Cons.prems by (rule checkRateLimit_bounded)
  then have "length (snd (calls clock (snd (checkRateLimit now h)))) \<le> MAX_REQUESTS"
    by (rule Cons.IH)
  then show ?case
    by (simp add: split_beta Let_def)
qed

text \<open>
  C2. From the empty store, with TIME_WINDOW = 60000 and MAX_REQUESTS = 10: ten calls at
  time 0 are all allowed; an eleventh call at time 0 is denied; and after ten calls at
  time 0 a call at time 60001 is allowed.
\<close>

theorem rate_limiter_scenario:
  "TIME_WINDOW = 60000 \<and> MAX_REQUESTS = 10
   \<and> fst (calls (replicate 10 0) []) = replicate 10 True
   \<and> fst (calls (replicate 11 0) []) = replicate 10 True @ [False]
   \<and> fst (calls (replicate 10 0 @ [60001]) []) = replicate 10 True @ [True]"
  by (simp add: eval_nat_numeral checkRateLimit_def prune_def Let_def MAX_REQUESTS_def
      TIME_WINDOW_def)

text \<open>
  C5, as stated, fails at the boundary: at time 60000 the stored timestamp 0 is exactly
  60000 ms old, so it is not older than \<open>now - 60000\<close>, and the prune removes it all the
  same.
\<close>

theorem prune_boundary_counterexample:
  "(0::int) = 60000 - TIME_WINDOW \<and> \<not> (0::int) < 60000 - TIME_WINDOW
   \<and> prune 60000 [0] = []"
  by (simp add: prune_def TIME_WINDOW_def)

text \<open>
  C5, amended. The prune keeps the stored timestamps in their order and removes a
  timestamp \<open>t\<close> exactly when \<open>t \<le> now - 60000\<close>, that is when it is at least 60000 ms
  old; a timestamp exactly 60000 ms old is removed. If at least MAX_REQUESTS timestamps
  remain the call is denied and the store is the pruned one, without \<open>now\<close>; otherwise
  \<open>now\<close> is appended to the pruned store and the call is allowed.
\<close>

theorem checkRateLimit_prune_then_admit:
  "prune now h = filter (\<lambda>t. \<not> t \<le> now - 60000) h
   \<and> now - 60000 \<notin> set (prune now h)
   \<and> checkRateLimit now h =
       (if length (prune now h) \<ge> 10
        then (Denied RateLimitExceeded, prune now h)
        else (Allowed, prune now h @ [now]))"
proof -
  have keep: "(now - t < TIME_WINDOW) = (\<not> t \<le> now - 60000)" for t
    by (simp add: TIME_WINDOW_def) arith
  have "prune now h = filter (\<lambda>t. \<not> t \<le> now - 60000) h"
    by (simp add: prune_def keep)
  moreover from this have "now - 60000 \<notin> set (prune now h)"
    by simp
  moreover have "checkRateLimit now h =
       (if length (prune now h) \<ge> 10
        then (Denied RateLimitExceeded, prune now h)
        else (Allowed, prune now h @ [now]))"
    by (simp add: checkRateLimit_def Let_def MAX_REQUESTS_def)
  ultimately show ?thesis by blast
qed

text \<open>
  C10. Starting from the empty store, after any sequence of calls (at any clock
  readings) the store holds at most MAX_REQUESTS = 10 timestamps; and a denied call
  leaves exactly the pruned store, so its length is the post-prune length.
\<close>

theorem store_never_exceeds_max:
  "MAX_REQUESTS = 10
   \<and> length (snd (calls clock [])) \<le> MAX_REQUESTS
   \<and> (\<not> allowed (fst (checkRateLimit now h)) \<longrightarrow>
        snd (checkRateLimit now h) = prune now h
        \<and> length (snd (checkRateLimit now h)) = length (prune now h))"
proof -
  have "length (snd (calls clock [])) \<le> MAX_REQUESTS"
    by (rule calls_store_bounded) simp
  then show ?thesis
    by (simp add: checkRateLimit_allowed checkRateLimit_store MAX_REQUESTS_def)
qed

theorem store_never_exceeds_max_witness:
  "length (snd (calls (replicate 11 0) [])) \<le> MAX_REQUESTS
   \<and> snd (calls (replicate 11 0) []) = replicate 10 0
   \<and> \<not> allowed (fst (checkRateLimit 0 (replicate 10 0)))
   \<and> snd (checkRateLimit 0 (replicate 10 0)) = prune 0 (replicate 10 0)
   \<and> length (snd (checkRateLimit 0 (replicate 10 0))) = 10"
  using store_never_exceeds_max [of "replicate 11 0" 0 "replicate 10 0"]
  by (simp add: eval_nat_numeral checkRateLimit_def prune_def Let_def MAX_REQUESTS_def
      TIME_WINDOW_def)

section \<open>Properties of the element calculation\<close>

lemma elements_loop_map:
  "elements_loop B k n acc = acc @ map (\<lambda>j. calculateElements B j n) [k..n]"
proof (induction B k n acc rule: elements_loop.induct)
  case (1 B k n elements)
  show ?case
  proof (cases "k \<le> n")
    case True
    then have "[k..n] = k # [k + 1..n]"
      by (simp add: upto_rec1)
    with True 1 show ?thesis
      by (simp add: elements_loop.simps [of B k n elements])
  next
    case False
    then show ?thesis
      by (simp add: elements_loop.simps [of B k n elements])
  qed
qed

lemma compute_elements_map:
  "compute_elements B (Num n) = map (\<lambda>k. calculateElements B k n) [1..n]"
  by (simp add: compute_elements_def elements_loop_map)

lemma digit_char: "d < 10 \<Longrightarrow> isDecimalDigit (''0123456789'' ! d)"
proof -
  assume "d < 10"
  then have "d \<in> {0, 1, 2, 3, 4, 5, 6, 7, 8, 9}"
    by auto
  then show ?thesis
    by (auto simp: isDecimalDigit_def)
qed

lemma nat_digits_digits: "list_all isDecimalDigit (nat_digits n)"
proof (induction n rule: nat_digits.induct)
  case (1 n)
  show ?case
  proof (cases "n < 10")
    case True
    then show ?thesis
      by (simp add: nat_digits.simps [of n] digit_char)
  next
    case False
    with 1 show ?thesis
      by (simp add: nat_digits.simps [of n] digit_char)
  qed
qed

lemma nat_digits_nonempty: "nat_digits n \<noteq> []"
  by (simp add: nat_digits.simps [of n])

lemma takeWhile_digits:
  "list_all isDecimalDigit a \<Longrightarrow> takeWhile isDecimalDigit (a @ CHR ''.'' # b) = a"
  by (induction a) (simp_all add: isDecimalDigit_def)

lemma dropWhile_digits:
  "list_all isDecimalDigit a \<Longrightarrow> dropWhile isDecimalDigit (a @ CHR ''.'' # b) = CHR ''.'' # b"
  by (induction a) (simp_all add: isDecimalDigit_def)

lemma has_decimals_digits:
  assumes "list_all isDecimalDigit a" "a \<noteq> []" "list_all isDecimalDigit b" "length b = f"
  shows "has_decimals f (a @ CHR ''.'' # b)" and "has_decimals f (CHR ''-'' # a @ CHR ''.'' # b)"
proof -
  obtain c r where a: "a = c # r"
    using assms(2) by (cases a) auto
  have "c \<noteq> CHR ''-''"
    using assms(1) a by (auto simp: isDecimalDigit_def)
  then show "has_decimals f (a @ CHR ''.'' # b)"
    using assms takeWhile_digits [of a b] dropWhile_digits [of a b]
    by (simp add: has_decimals_def a Let_def)
  show "has_decimals f (CHR ''-'' # a @ CHR ''.'' # b)"
    using assms takeWhile_digits [of a b] dropWhile_digits [of a b]
    by (simp add: has_decimals_def Let_def)
qed

lemma toFixed_has_decimals:
  assumes "0 < f" "\<bar>x\<bar> < 10 ^ 21"
  shows "has_decimals f (toFixed B f x)"
proof -
  define y where "y = (if x < 0 then - x else x)"
  define m where "m = nat_digits (nat \<lfloor>y * 10 ^ f + 1 / 2\<rfloor>)"
  define m2 where "m2 = (if length m \<le> f then replicate (f + 1 - length m) CHR ''0'' @ m else m)"
  define k where "k = (if length m \<le> f then f + 1 else length m)"
  have y: "\<not> y \<ge> 10 ^ 21"
    using assms(2) by (simp add: y_def abs_if split: if_splits)
  have dm: "list_all isDecimalDigit m"
    by (simp add: m_def nat_digits_digits)
  have d2: "list_all isDecimalDigit m2"
    using dm by (simp add: m2_def isDecimalDigit_def list_all_iff)
  have len: "length m2 = k" "f < k"
    by (auto simp: m2_def k_def)
  have a: "list_all isDecimalDigit (take (k - f) m2)" "take (k - f) m2 \<noteq> []"
    using d2 len by (auto simp: list_all_iff dest: in_set_takeD)
  have b: "list_all isDecimalDigit (drop (k - f) m2)" "length (drop (k - f) m2) = f"
    using d2 len by (auto simp: list_all_iff dest: in_set_dropD)
  have "toFixed B f x
      = (if x < 0 then ''-'' else []) @ take (k - f) m2 @ CHR ''.'' # drop (k - f) m2"
    unfolding toFixed_def Let_def m2_def k_def m_def y_def
    using assms by (simp add: abs_if split: if_splits)
  then show ?thesis
    using has_decimals_digits [OF a b] by simp
qed

lemma calculateElements_fields:
  "type (calculateElements B k n) = (if even k then ''capacitor'' else ''inductor'')"
  "index (calculateElements B k n) = k"
  "value_str (calculateElements B k n) = toFixed B 4 (ak B k n)"
  by (simp_all add: calculateElements_def Let_def even_iff_mod_2_eq_zero)

text \<open>
  C1. For every integer \<open>n\<close> from 1 to 20 the element loop of the submit handler returns
  exactly \<open>n\<close> elements, with \<open>index\<close> running through 1, \<dots>, \<open>n\<close> in order; the
  element of index \<open>k\<close> is a capacitor when \<open>k\<close> is even and an inductor when \<open>k\<close> is odd,
  so the first one is an inductor; and its value is \<open>2 * sin ((2 * k - 1) * PI / (2 * n))\<close>,
  computed with the host's arithmetic and formatted by \<open>toFixed(4)\<close>, which writes exactly
  four decimal digits (for a number below \<open>10^21\<close>, as every such value is).
\<close>

theorem submit_elements_butterworth:
  assumes "1 \<le> n" and "n \<le> 20"
  shows "compute_elements B (Num n) =
           map (\<lambda>k. \<lparr>type = (if even k then ''capacitor'' else ''inductor''),
                      index = k,
                      value_str = toFixed B 4
                        (num_times B 2
                          (Math_sin B
                            (num_divide B (num_times B (of_int (2 * k - 1)) (Math_PI B))
                               (of_int (2 * n)))))\<rparr>) [1..n]
         \<and> length (compute_elements B (Num n)) = nat n
         \<and> map index (compute_elements B (Num n)) = [1..n]
         \<and> type (hd (compute_elements B (Num n))) = ''inductor''
         \<and> (\<forall>e \<in> set (compute_elements B (Num n)).
               \<bar>ak B (index e) n\<bar> < 10 ^ 21 \<longrightarrow> has_decimals 4 (value_str e))"
proof -
  let ?els = "compute_elements B (Num n)"
  have els: "?els = map (\<lambda>k. calculateElements B k n) [1..n]"
    by (rule compute_elements_map)
  have first: "[1..n] = 1 # [2..n]"
    using assms(1) by (simp add: upto_rec1)
  have "?els =
           map (\<lambda>k. \<lparr>type = (if even k then ''capacitor'' else ''inductor''),
                      index = k,
                      value_str = toFixed B 4
                        (num_times B 2
                          (Math_sin B
                            (num_divide B (num_times B (of_int (2 * k - 1)) (Math_PI B))
                               (of_int (2 * n)))))\<rparr>) [1..n]"
    by (simp add: els calculateElements_def ak_def Let_def even_iff_mod_2_eq_zero)
  moreover have "length ?els = nat n"
    by (simp add: els)
  moreover have "map index ?els = [1..n]"
    by (simp add: els calculateElements_fields map_idI)
  moreover have "type (hd ?els) = ''inductor''"
    by (simp add: els first calculateElements_fields)
  moreover have "\<forall>e \<in> set ?els. \<bar>ak B (index e) n\<bar> < 10 ^ 21 \<longrightarrow> has_decimals 4 (value_str e)"
    by (auto simp: els calculateElements_fields toFixed_has_decimals)
  ultimately show ?thesis
    by blast
qed

text \<open>
  Order 4 with real arithmetic: the values are \<open>2 * sin (pi / 8)\<close> and
  \<open>2 * cos (pi / 8)\<close>, written \<open>0.7654\<close> and \<open>1.8478\<close>.
\<close>

lemma sqrt2_tight: "1.41421 < sqrt 2" "sqrt 2 < 1.41422"
proof -
  have "(1.41421::real)\<^sup>2 < 2"
    by (simp add: power2_eq_square)
  then show "1.41421 < sqrt 2"
    by (intro real_less_rsqrt)
  have "(2::real) < 1.41422\<^sup>2"
    by (simp add: power2_eq_square)
  then show "sqrt 2 < 1.41422"
    by (intro real_less_lsqrt) simp_all
qed

lemma two_sin_pi_8: "0.76535 \<le> 2 * sin (pi / 8)" "2 * sin (pi / 8) < 0.76545"
proof -
  let ?a = "2 * sin (pi / 8)"
  have "cos (2 * (pi / 8)) = 1 - 2 * (sin (pi / 8))\<^sup>2"
    by (rule cos_double_sin)
  moreover have "cos (2 * (pi / 8)) = sqrt 2 / 2"
    using cos_45 by simp
  ultimately have sq: "?a\<^sup>2 = 2 - sqrt 2"
    by (simp add: power2_eq_square)
  have pos: "0 \<le> ?a"
    using sin_ge_zero [of "pi / 8"] by simp
  have "(0.76535::real)\<^sup>2 \<le> ?a\<^sup>2"
    unfolding sq using sqrt2_tight(2) by (simp add: power2_eq_square)
  then show "0.76535 \<le> ?a"
    using pos by (rule power2_le_imp_le)
  have "?a\<^sup>2 < (0.76545::real)\<^sup>2"
    unfolding sq using sqrt2_tight(1) by (simp add: power2_eq_square)
  then show "?a < 0.76545"
    by (rule power2_less_imp_less) simp
qed

lemma two_cos_pi_8: "1.84775 \<le> 2 * cos (pi / 8)" "2 * cos (pi / 8) < 1.84785"
proof -
  let ?b = "2 * cos (pi / 8)"
  have "cos (2 * (pi / 8)) = 2 * (cos (pi / 8))\<^sup>2 - 1"
    by (rule cos_double_cos)
  moreover have "cos (2 * (pi / 8)) = sqrt 2 / 2"
    using cos_45 by simp
  ultimately have sq: "?b\<^sup>2 = 2 + sqrt 2"
    by (simp add: power2_eq_square)
  have pos: "0 \<le> ?b"
    using cos_ge_zero [of "pi / 8"] by simp
  have "(1.84775::real)\<^sup>2 \<le> ?b\<^sup>2"
    unfolding sq using sqrt2_tight(1) by (simp add: power2_eq_square)
  then show "1.84775 \<le> ?b"
    using pos by (rule power2_le_imp_le)
  have "?b\<^sup>2 < (1.84785::real)\<^sup>2"
    unfolding sq using sqrt2_tight(2) by (simp add: power2_eq_square)
  then show "?b < 1.84785"
    by (rule power2_less_imp_less) simp
qed

lemma sin_eighths:
  "sin (3 * pi / 8) = cos (pi / 8)"
  "sin (5 * pi / 8) = cos (pi / 8)"
  "sin (7 * pi / 8) = sin (pi / 8)"
proof -
  have "pi / 2 - pi / 8 = 3 * pi / 8"
    by simp
  then show 3: "sin (3 * pi / 8) = cos (pi / 8)"
    using cos_sin_eq [of "pi / 8 :: real"] by simp
  have "sin (5 * pi / 8) = sin (pi - 3 * pi / 8)"
    by simp
  then show "sin (5 * pi / 8) = cos (pi / 8)"
    using 3 by (simp only: sin_pi_minus)
  have "sin (7 * pi / 8) = sin (pi - pi / 8)"
    by simp
  then show "sin (7 * pi / 8) = sin (pi / 8)"
    by (simp only: sin_pi_minus)
qed

lemma ak_exact_4:
  "ak exact 1 4 = 2 * sin (pi / 8)" "ak exact 2 4 = 2 * cos (pi / 8)"
  "ak exact 3 4 = 2 * cos (pi / 8)" "ak exact 4 4 = 2 * sin (pi / 8)"
  by (simp_all add: ak_def exact_def sin_eighths)

lemma toFixed_order_4:
  "toFixed B 4 (2 * sin (pi / 8)) = ''0.7654''" "toFixed B 4 (2 * cos (pi / 8)) = ''1.8478''"
proof -
  have "\<lfloor>2 * sin (pi / 8) * 10 ^ 4 + 1 / 2\<rfloor> = 7654"
    using two_sin_pi_8 by (intro floor_unique) simp_all
  moreover have "\<not> 2 * sin (pi / 8) < 0" "\<not> 10 ^ 21 \<le> 2 * sin (pi / 8)"
    using two_sin_pi_8 by simp_all
  ultimately show "toFixed B 4 (2 * sin (pi / 8)) = ''0.7654''"
    by (simp add: toFixed_eval)
  have "\<lfloor>2 * cos (pi / 8) * 10 ^ 4 + 1 / 2\<rfloor> = 18478"
    using two_cos_pi_8 by (intro floor_unique) simp_all
  moreover have "\<not> 2 * cos (pi / 8) < 0" "\<not> 10 ^ 21 \<le> 2 * cos (pi / 8)"
    using two_cos_pi_8 by simp_all
  ultimately show "toFixed B 4 (2 * cos (pi / 8)) = ''1.8478''"
    by (simp add: toFixed_eval)
qed

theorem submit_elements_butterworth_witness:
  "(1::int) \<le> 4 \<and> (4::int) \<le> 20
   \<and> compute_elements exact (Num 4) =
        [\<lparr>type = ''inductor'', index = 1, value_str = ''0.7654''\<rparr>,
         \<lparr>type = ''capacitor'', index = 2, value_str = ''1.8478''\<rparr>,
         \<lparr>type = ''inductor'', index = 3, value_str = ''1.8478''\<rparr>,
         \<lparr>type = ''capacitor'', index = 4, value_str = ''0.7654''\<rparr>]
   \<and> \<bar>ak exact 1 4\<bar> < 10 ^ 21 \<and> \<bar>ak exact 2 4\<bar> < 10 ^ 21
   \<and> \<bar>ak exact 3 4\<bar> < 10 ^ 21 \<and> \<bar>ak exact 4 4\<bar> < 10 ^ 21
   \<and> has_decimals 4 ''0.7654'' \<and> has_decimals 4 ''1.8478''"
proof -
  have small: "\<bar>2 * sin (pi / 8)\<bar> < 10 ^ 21" "\<bar>2 * cos (pi / 8)\<bar> < 10 ^ 21"
    using two_sin_pi_8 two_cos_pi_8 by simp_all
  have up: "[1..4] = [1, 2, 3, 4::int]"
    by (simp add: upto_rec1)
  have fold: "num_times exact 2
      (Math_sin exact
        (num_divide exact (num_times exact (of_int (2 * k - 1)) (Math_PI exact))
           (of_int (2 * 4)))) = ak exact k 4" for k
    by (simp add: ak_def)
  from submit_elements_butterworth [of 4 exact]
  have "compute_elements exact (Num 4) =
        [\<lparr>type = ''inductor'', index = 1, value_str = ''0.7654''\<rparr>,
         \<lparr>type = ''capacitor'', index = 2, value_str = ''1.8478''\<rparr>,
         \<lparr>type = ''inductor'', index = 3, value_str = ''1.8478''\<rparr>,
         \<lparr>type = ''capacitor'', index = 4, value_str = ''0.7654''\<rparr>]
      \<and> (\<forall>e \<in> set (compute_elements exact (Num 4)).
               \<bar>ak exact (index e) 4\<bar> < 10 ^ 21 \<longrightarrow> has_decimals 4 (value_str e))"
    unfolding fold by (simp add: up ak_exact_4 toFixed_order_4)
  then have els: "compute_elements exact (Num 4) =
        [\<lparr>type = ''inductor'', index = 1, value_str = ''0.7654''\<rparr>,
         \<lparr>type = ''capacitor'', index = 2, value_str = ''1.8478''\<rparr>,
         \<lparr>type = ''inductor'', index = 3, value_str = ''1.8478''\<rparr>,
         \<lparr>type = ''capacitor'', index = 4, value_str = ''0.7654''\<rparr>]"
    and dec: "\<forall>e \<in> set (compute_elements exact (Num 4)).
               \<bar>ak exact (index e) 4\<bar> < 10 ^ 21 \<longrightarrow> has_decimals 4 (value_str e)"
    by blast+
  from dec have "has_decimals 4 ''0.7654'' \<and> has_decimals 4 ''1.8478''"
    using small by (simp add: els ak_exact_4)
  then show ?thesis
    using small els by (simp add: ak_exact_4)
qed

section \<open>Properties of the validator\<close>

text \<open>
  C3 fails on the code: the input that is a single space has empty trimmed content, yet
  \<open>isNaN\<close> is false for it (it converts to 0), it is not the empty string,
  \<open>parseInt\<close> gives NaN, which passes both range comparisons, and the input is accepted
  as valid with the value NaN.
\<close>

theorem whitespace_input_accepted:
  "trimString '' '' = [] \<and> validateInput '' '' = Valid InputValidated NaN"
  by (simp add: validate_eval)

text \<open>
  The rest of the first rule holds: an input that does not convert to a number, and the
  empty input, get the must-be-a-number message; and whatever is accepted carries NaN or
  an integer from 1 to 20.
\<close>

lemma validateInput_not_a_number:
  "isNaN v \<or> v = [] \<Longrightarrow> validateInput v = Invalid MustBeNumber"
  by (simp add: validateInput_def)

lemma validateInput_accepted:
  assumes "validateInput v = Valid m x"
  shows "m = InputValidated \<and> \<not> isNaN v \<and> v \<noteq> [] \<and> CHR ''.'' \<notin> set v \<and> CHR '','' \<notin> set v
     \<and> x = parseInt v \<and> (x = NaN \<or> (\<exists>n. x = Num n \<and> 1 \<le> n \<and> n \<le> 20))"
proof -
  from assms have *: "m = InputValidated" "\<not> isNaN v" "v \<noteq> []" "CHR ''.'' \<notin> set v"
    "CHR '','' \<notin> set v" "x = parseInt v" "\<not> js_less x (Num 1)" "\<not> js_less (Num 20) x"
    by (auto simp: validateInput_def Let_def MIN_INPUT_def MAX_INPUT_def split: if_splits)
  from *(7,8) have "x = NaN \<or> (\<exists>n. x = Num n \<and> 1 \<le> n \<and> n \<le> 20)"
    by (cases x) (auto simp: js_less_def)
  with * show ?thesis
    by simp
qed

text \<open>
  C4. The validator rejects the empty string, \<open>abc\<close>, \<open>0\<close>, \<open>21\<close>, \<open>3.5\<close> and
  \<open>1,5\<close>, and accepts each of \<open>1\<close>, \<dots>, \<open>20\<close> with that integer as its value.
\<close>

theorem validateInput_examples:
  "map validateInput ['''', ''abc'', ''0'', ''21'', ''3.5'', ''1,5''] =
     [Invalid MustBeNumber, Invalid MustBeNumber, Invalid OutOfRange, Invalid OutOfRange,
      Invalid IntegerRequired, Invalid MustBeNumber]
   \<and> map validateInput
       [''1'', ''2'', ''3'', ''4'', ''5'', ''6'', ''7'', ''8'', ''9'', ''10'',
        ''11'', ''12'', ''13'', ''14'', ''15'', ''16'', ''17'', ''18'', ''19'', ''20''] =
     map (\<lambda>n. Valid InputValidated (Num n))
       [1, 2, 3, 4, 5, 6, 7, 8, 9, 10, 11, 12, 13, 14, 15, 16, 17, 18, 19, 20]"
  by (simp add: validate_eval)

section \<open>Properties of the renderer\<close>

lemma sanitizeHTML_labels:
  "sanitizeHTML ''capacitor'' = ''capacitor''" "sanitizeHTML ''inductor'' = ''inductor''"
  by (simp_all add: sanitizeHTML_def escape_char_def)

lemma render_element_displayed:
  assumes "\<forall>r \<in> set (resultField st). r < length (nodes st)"
  shows "displayed (render_element e i st) = displayed st @ [result_item e]"
    and "\<forall>r \<in> set (resultField (render_element e i st)). r < length (nodes (render_element e i st))"
  using assms by (auto simp: render_element_def displayed_def Let_def nth_append)

lemma forEach_render_displayed:
  "\<forall>r \<in> set (resultField st). r < length (nodes st) \<Longrightarrow>
     displayed (forEach_render es i st) = displayed st @ map result_item es"
proof (induction es arbitrary: i st)
  case Nil
  then show ?case by simp
next
  case (Cons e es)
  have "displayed (forEach_render es (i + 1) (render_element e i st))
      = displayed (render_element e i st) @ map result_item es"
    using Cons.prems by (intro Cons.IH render_element_displayed(2))
  then show ?case
    using Cons.prems by (simp add: render_element_displayed(1))
qed

lemma renderResults_displayed: "displayed (renderResults es st) = map result_item es"
proof -
  have "displayed (forEach_render es 0 (st\<lparr>resultField := [], trace := trace st @ [Call_renderResults]\<rparr>))
      = displayed (st\<lparr>resultField := [], trace := trace st @ [Call_renderResults]\<rparr>) @ map result_item es"
    by (rule forEach_render_displayed) simp
  then show ?thesis
    by (simp add: renderResults_def displayed_def)
qed

lemma forEach_render_nodes:
  "nodes (forEach_render es i st) = nodes st @ map result_item es"
  by (induction es arbitrary: i st) (simp_all add: render_element_def Let_def)

lemma forEach_render_resultField:
  "resultField (forEach_render es i st)
     = resultField st @ [length (nodes st) ..< length (nodes st) + length es]"
proof (induction es arbitrary: i st)
  case Nil
  then show ?case by simp
next
  case (Cons e es)
  have "[length (nodes st) ..< length (nodes st) + length (e # es)]
      = length (nodes st) # [Suc (length (nodes st)) ..< Suc (length (nodes st)) + length es]"
    by (simp add: upt_rec)
  then show ?case
    by (simp add: Cons.IH render_element_def Let_def)
qed

lemma forEach_render_timers:
  "timers (forEach_render es i st)
     = timers st @ map (\<lambda>j. ((i + j) * 50, Add_show (length (nodes st) + j))) [0 ..< length es]"
proof (induction es arbitrary: i st)
  case Nil
  then show ?case by simp
next
  case (Cons e es)
  have "map (\<lambda>j. ((i + j) * 50, Add_show (length (nodes st) + j))) [0 ..< length (e # es)]
      = (i * 50, Add_show (length (nodes st)))
        # map (\<lambda>j. ((i + 1 + j) * 50, Add_show (Suc (length (nodes st)) + j))) [0 ..< length es]"
    by (simp add: upt_rec [of 0] map_Suc_upt [symmetric] del: upt_Suc)
  then show ?case
    by (simp add: Cons.IH render_element_def Let_def)
qed

lemma renderResults_nodes: "nodes (renderResults es st) = nodes st @ map result_item es"
  by (simp add: renderResults_def forEach_render_nodes)

lemma renderResults_resultField:
  "resultField (renderResults es st) = [length (nodes st) ..< length (nodes st) + length es]"
  by (simp add: renderResults_def forEach_render_resultField)

lemma renderResults_timers:
  "timers (renderResults es st)
     = timers st @ map (\<lambda>j. (j * 50, Add_show (length (nodes st) + j))) [0 ..< length es]"
  by (simp add: renderResults_def forEach_render_timers)

lemma fire_detached:
  assumes "\<forall>r \<in> set (resultField st). resultDiv < r"
  shows "displayed (fire (Add_show resultDiv) st) = displayed st"
  using assms by (auto simp: fire_def displayed_def)

text \<open>
  C7. Rendering a batch \<open>A\<close> and then a batch \<open>B\<close> leaves exactly the items of \<open>B\<close> in
  the output region, which is what rendering \<open>B\<close> on an empty output region leaves. The
  timers that rendering \<open>A\<close> scheduled are still pending then; when one of them runs it
  changes a \<^verbatim>\<open>div\<close> that is no longer in the region, and what the region shows stays.
\<close>

theorem render_replaces_previous_batch:
  "displayed (renderResults B (renderResults A st)) = map result_item B
   \<and> displayed (renderResults B (renderResults A st))
       = displayed (renderResults B (st\<lparr>resultField := []\<rparr>))
   \<and> list_all
        (\<lambda>(delay, cb).
           displayed (fire cb (renderResults B (renderResults A st))) = map result_item B)
        (drop (length (timers st)) (timers (renderResults A st)))"
proof -
  have "displayed (fire (Add_show (length (nodes st) + j)) (renderResults B (renderResults A st)))
      = map result_item B" if "j < length A" for j
  proof -
    have "\<forall>r \<in> set (resultField (renderResults B (renderResults A st))). length (nodes st) + j < r"
      using that by (simp add: renderResults_resultField renderResults_nodes)
    then show ?thesis
      by (simp add: fire_detached renderResults_displayed)
  qed
  then show ?thesis
    by (simp add: renderResults_displayed renderResults_timers list_all_iff)
qed

theorem render_replaces_previous_batch_witness:
  "displayed
     (renderResults [\<lparr>type = ''inductor'', index = 1, value_str = ''2.0000''\<rparr>]
       (renderResults
          [\<lparr>type = ''inductor'', index = 1, value_str = ''1.4142''\<rparr>,
           \<lparr>type = ''capacitor'', index = 2, value_str = ''1.4142''\<rparr>] blank_page))
     = [\<lparr>classList = [''result-item''], icon_textContent = ElectricPlug,
         text_textContent = ''El inductor 1 vale 2.0000''\<rparr>]
   \<and> timers
       (renderResults
          [\<lparr>type = ''inductor'', index = 1, value_str = ''1.4142''\<rparr>,
           \<lparr>type = ''capacitor'', index = 2, value_str = ''1.4142''\<rparr>] blank_page)
     = [(0, Add_show 0), (50, Add_show 1)]
   \<and> displayed
       (fire (Add_show 1)
         (renderResults [\<lparr>type = ''inductor'', index = 1, value_str = ''2.0000''\<rparr>]
           (renderResults
              [\<lparr>type = ''inductor'', index = 1, value_str = ''1.4142''\<rparr>,
               \<lparr>type = ''capacitor'', index = 2, value_str = ''1.4142''\<rparr>] blank_page)))
     = [\<lparr>classList = [''result-item''], icon_textContent = ElectricPlug,
         text_textContent = ''El inductor 1 vale 2.0000''\<rparr>]"
proof -
  let ?A = "[\<lparr>type = ''inductor'', index = 1, value_str = ''1.4142''\<rparr>,
             \<lparr>type = ''capacitor'', index = 2, value_str = ''1.4142''\<rparr>]"
  let ?B = "[\<lparr>type = ''inductor'', index = 1, value_str = ''2.0000''\<rparr>]"
  have q: "timers blank_page = []" "nodes blank_page = []"
    by (simp_all add: blank_page_def)
  have t: "timers (renderResults ?A blank_page) = [(0, Add_show 0), (50, Add_show 1)]"
    by (simp add: renderResults_timers q upt_rec)
  have item: "map result_item ?B
      = [\<lparr>classList = [''result-item''], icon_textContent = ElectricPlug,
          text_textContent = ''El inductor 1 vale 2.0000''\<rparr>]"
    by (simp add: result_item_def sanitizeHTML_labels int_to_string_def)
  from render_replaces_previous_batch [of ?B ?A blank_page]
  have "displayed (renderResults ?B (renderResults ?A blank_page)) = map result_item ?B
      \<and> displayed (fire (Add_show 1) (renderResults ?B (renderResults ?A blank_page)))
          = map result_item ?B"
    unfolding t q by simp
  then show ?thesis
    unfolding item t by simp
qed

lemma forEach_render_frame:
  "requestHistory (forEach_render es i st) = requestHistory st"
  "console (forEach_render es i st) = console st"
  "trace (forEach_render es i st) = trace st"
  "inputValidation (forEach_render es i st) = inputValidation st"
  by (induction es arbitrary: i st) (simp_all add: render_element_def Let_def)

lemma renderResults_frame:
  "requestHistory (renderResults es st) = requestHistory st"
  "console (renderResults es st) = console st"
  "trace (renderResults es st) = trace st @ [Call_renderResults]"
  "inputValidation (renderResults es st) = inputValidation st"
  by (simp_all add: renderResults_def forEach_render_frame)

section \<open>Properties of the submit handler\<close>

lemma submit_denied:
  "\<not> allowed (fst (checkRateLimit now (requestHistory st))) \<Longrightarrow>
     submit B now timestamp input st =
       showValidationMessage RateLimitExceeded True
         (st\<lparr>requestHistory := prune now (requestHistory st),
             trace := trace st @ [Call_checkRateLimit]\<rparr>)"
  by (simp add: submit_def checkRateLimit_def Let_def split: if_splits)

lemma submit_invalid:
  "allowed (fst (checkRateLimit now (requestHistory st))) \<Longrightarrow>
   validateInput input = Invalid m \<Longrightarrow>
     submit B now timestamp input st =
       showValidationMessage m True
         (st\<lparr>requestHistory := prune now (requestHistory st) @ [now],
             trace := trace st @ [Call_checkRateLimit, Call_validateInput]\<rparr>)"
  by (simp add: submit_def checkRateLimit_def Let_def split: if_splits)

lemma submit_valid:
  "allowed (fst (checkRateLimit now (requestHistory st))) \<Longrightarrow>
   validateInput input = Valid m n \<Longrightarrow>
     submit B now timestamp input st =
       (let st1 = renderResults (compute_elements B n)
                    (st\<lparr>requestHistory := prune now (requestHistory st) @ [now],
                        trace := trace st @ [Call_checkRateLimit, Call_validateInput,
                                   Call_calculateElements]\<rparr>)
        in st1\<lparr>console := console st1 @
                  [(''[SECURITY AUDIT]'',
                    audit_record timestamp n (compute_elements B n) (requestHistory st1))],
                trace := trace st1 @ [Call_console_log]\<rparr>)"
  by (simp add: submit_def checkRateLimit_def Let_def split: if_splits)

lemma showValidationMessage_frame:
  "requestHistory (showValidationMessage m e st) = requestHistory st"
  "nodes (showValidationMessage m e st) = nodes st"
  "resultField (showValidationMessage m e st) = resultField st"
  "console (showValidationMessage m e st) = console st"
  "trace (showValidationMessage m e st) = trace st @ [Call_showValidationMessage]"
  "textContent (inputValidation (showValidationMessage m e st)) = Some m"
  by (simp_all add: showValidationMessage_def)

lemma submit_requestHistory:
  "requestHistory (submit B now timestamp input st) = snd (checkRateLimit now (requestHistory st))"
proof (cases "allowed (fst (checkRateLimit now (requestHistory st)))")
  case False
  then show ?thesis
    by (simp add: submit_denied showValidationMessage_frame checkRateLimit_store
        checkRateLimit_allowed)
next
  case True
  then show ?thesis
    by (cases "validateInput input")
      (simp_all add: submit_invalid submit_valid showValidationMessage_frame renderResults_frame
        checkRateLimit_store checkRateLimit_allowed Let_def)
qed

lemma submit_trace_starts:
  "take (Suc (length (trace st))) (trace (submit B now timestamp input st))
     = trace st @ [Call_checkRateLimit]"
proof (cases "allowed (fst (checkRateLimit now (requestHistory st)))")
  case False
  then show ?thesis
    by (simp add: submit_denied showValidationMessage_frame)
next
  case True
  then show ?thesis
    by (cases "validateInput input")
      (simp_all add: submit_invalid submit_valid showValidationMessage_frame renderResults_frame
        Let_def)
qed

text \<open>
  C6. On every submit the limiter runs first and the store it returns is the store the
  handler leaves, whatever the input is. When the check is denied the handler only shows
  the rate-limit message: validation and calculation are not run, and the result list and
  the console stay as they were. When the check is allowed and the input is invalid, the
  timestamp the check appended stays in the store.
\<close>

theorem rate_limit_charged_before_validation:
  "requestHistory (submit B now timestamp input st)
     = snd (checkRateLimit now (requestHistory st))
   \<and> take (Suc (length (trace st))) (trace (submit B now timestamp input st))
     = trace st @ [Call_checkRateLimit]
   \<and> (\<not> allowed (fst (checkRateLimit now (requestHistory st))) \<longrightarrow>
        trace (submit B now timestamp input st)
          = trace st @ [Call_checkRateLimit, Call_showValidationMessage]
        \<and> Call_validateInput \<notin> set (drop (length (trace st)) (trace (submit B now timestamp input st)))
        \<and> Call_calculateElements \<notin> set (drop (length (trace st)) (trace (submit B now timestamp input st)))
        \<and> textContent (inputValidation (submit B now timestamp input st)) = Some RateLimitExceeded
        \<and> nodes (submit B now timestamp input st) = nodes st
        \<and> resultField (submit B now timestamp input st) = resultField st
        \<and> console (submit B now timestamp input st) = console st)
   \<and> (allowed (fst (checkRateLimit now (requestHistory st))) \<and> \<not> valid (validateInput input) \<longrightarrow>
        trace (submit B now timestamp input st)
          = trace st @ [Call_checkRateLimit, Call_validateInput, Call_showValidationMessage]
        \<and> requestHistory (submit B now timestamp input st) = prune now (requestHistory st) @ [now]
        \<and> textContent (inputValidation (submit B now timestamp input st))
            = Some (message_of (validateInput input))
        \<and> nodes (submit B now timestamp input st) = nodes st
        \<and> resultField (submit B now timestamp input st) = resultField st
        \<and> console (submit B now timestamp input st) = console st)"
proof -
  have denied: "trace (submit B now timestamp input st)
          = trace st @ [Call_checkRateLimit, Call_showValidationMessage]
        \<and> Call_validateInput \<notin> set (drop (length (trace st)) (trace (submit B now timestamp input st)))
        \<and> Call_calculateElements \<notin> set (drop (length (trace st)) (trace (submit B now timestamp input st)))
        \<and> textContent (inputValidation (submit B now timestamp input st)) = Some RateLimitExceeded
        \<and> nodes (submit B now timestamp input st) = nodes st
        \<and> resultField (submit B now timestamp input st) = resultField st
        \<and> console (submit B now timestamp input st) = console st"
    if "\<not> allowed (fst (checkRateLimit now (requestHistory st)))"
    using that by (simp add: submit_denied showValidationMessage_frame)
  have invalid: "trace (submit B now timestamp input st)
          = trace st @ [Call_checkRateLimit, Call_validateInput, Call_showValidationMessage]
        \<and> requestHistory (submit B now timestamp input st) = prune now (requestHistory st) @ [now]
        \<and> textContent (inputValidation (submit B now timestamp input st))
            = Some (message_of (validateInput input))
        \<and> nodes (submit B now timestamp input st) = nodes st
        \<and> resultField (submit B now timestamp input st) = resultField st
        \<and> console (submit B now timestamp input st) = console st"
    if ok: "allowed (fst (checkRateLimit now (requestHistory st)))"
      and bad: "\<not> valid (validateInput input)"
  proof -
    obtain m where "validateInput input = Invalid m"
      using bad by (cases "validateInput input") simp_all
    then show ?thesis
      using ok by (simp add: submit_invalid showValidationMessage_frame)
  qed
  show ?thesis
    using denied invalid submit_requestHistory [of B now timestamp input st]
      submit_trace_starts [of st B now timestamp input]
    by blast
qed

theorem rate_limit_charged_before_validation_witness:
  "\<not> allowed (fst (checkRateLimit 0 (replicate 10 0)))
   \<and> trace (submit exact 0 ''1970-01-01T00:00:00.000Z'' ''5''
        (blank_page\<lparr>requestHistory := replicate 10 0\<rparr>))
       = [Call_checkRateLimit, Call_showValidationMessage]
   \<and> console (submit exact 0 ''1970-01-01T00:00:00.000Z'' ''5''
        (blank_page\<lparr>requestHistory := replicate 10 0\<rparr>)) = []
   \<and> allowed (fst (checkRateLimit 7 [])) \<and> \<not> valid (validateInput ''abc'')
   \<and> trace (submit exact 7 ''1970-01-01T00:00:00.007Z'' ''abc'' blank_page)
       = [Call_checkRateLimit, Call_validateInput, Call_showValidationMessage]
   \<and> requestHistory (submit exact 7 ''1970-01-01T00:00:00.007Z'' ''abc'' blank_page) = [7]
   \<and> textContent (inputValidation (submit exact 7 ''1970-01-01T00:00:00.007Z'' ''abc'' blank_page))
       = Some MustBeNumber"
proof -
  let ?p = "blank_page\<lparr>requestHistory := replicate 10 0\<rparr>"
  let ?s = "submit exact 0 ''1970-01-01T00:00:00.000Z'' ''5'' ?p"
  let ?t = "submit exact 7 ''1970-01-01T00:00:00.007Z'' ''abc'' blank_page"
  have p: "requestHistory ?p = replicate 10 0" "trace ?p = []" "console ?p = []"
    by (simp_all add: blank_page_def)
  have q: "requestHistory blank_page = []" "trace blank_page = []"
    by (simp_all add: blank_page_def)
  have d: "\<not> allowed (fst (checkRateLimit 0 (replicate 10 0)))"
    by (simp add: checkRateLimit_allowed prune_def TIME_WINDOW_def MAX_REQUESTS_def)
  have a: "allowed (fst (checkRateLimit 7 []))"
    by (simp add: checkRateLimit_allowed prune_def MAX_REQUESTS_def)
  have v: "validateInput ''abc'' = Invalid MustBeNumber"
    by (simp add: validate_eval)
  have d': "\<not> allowed (fst (checkRateLimit 0 (requestHistory ?p)))"
    using d by (simp add: p)
  have a': "allowed (fst (checkRateLimit 7 (requestHistory blank_page)))"
    using a by (simp add: q)
  have nv: "\<not> valid (validateInput ''abc'')"
    by (simp add: v)
  have "trace ?s = trace ?p @ [Call_checkRateLimit, Call_showValidationMessage]
      \<and> console ?s = console ?p"
    using rate_limit_charged_before_validation
        [of exact 0 "''1970-01-01T00:00:00.000Z''" "''5''" ?p] d'
    by blast
  moreover have "trace ?t
        = trace blank_page @ [Call_checkRateLimit, Call_validateInput, Call_showValidationMessage]
      \<and> requestHistory ?t = prune 7 (requestHistory blank_page) @ [7]
      \<and> textContent (inputValidation ?t) = Some (message_of (validateInput ''abc''))"
    using rate_limit_charged_before_validation
        [of exact 7 "''1970-01-01T00:00:00.007Z''" "''abc''" blank_page] a' nv
    by blast
  ultimately show ?thesis
    using d a by (simp add: p q v prune_def)
qed

lemma validateInput_Valid_range:
  "validateInput input = Valid m (Num n) \<Longrightarrow> m = InputValidated \<and> 1 \<le> n \<and> n \<le> 20"
  by (auto simp: validateInput_def Let_def js_less_def MIN_INPUT_def MAX_INPUT_def
      split: if_splits)

lemma submit_valid_console:
  assumes "allowed (fst (checkRateLimit now (requestHistory st)))"
    and "validateInput input = Valid m n"
  shows "console (submit B now timestamp input st) = console st @
           [(''[SECURITY AUDIT]'',
             audit_record timestamp n (compute_elements B n)
               (requestHistory (submit B now timestamp input st)))]"
    and "displayed (submit B now timestamp input st) = map result_item (compute_elements B n)"
    and "requestHistory (submit B now timestamp input st) = prune now (requestHistory st) @ [now]"
proof -
  let ?st0 = "st\<lparr>requestHistory := prune now (requestHistory st) @ [now],
      trace := trace st @ [Call_checkRateLimit, Call_validateInput, Call_calculateElements]\<rparr>"
  let ?st1 = "renderResults (compute_elements B n) ?st0"
  have s: "submit B now timestamp input st =
      ?st1\<lparr>console := console ?st1 @
          [(''[SECURITY AUDIT]'',
            audit_record timestamp n (compute_elements B n) (requestHistory ?st1))],
        trace := trace ?st1 @ [Call_console_log]\<rparr>"
    using submit_valid [OF assms, of B timestamp] by (simp add: Let_def)
  show h: "requestHistory (submit B now timestamp input st) = prune now (requestHistory st) @ [now]"
    by (simp add: s renderResults_frame)
  show "console (submit B now timestamp input st) = console st @
           [(''[SECURITY AUDIT]'',
             audit_record timestamp n (compute_elements B n)
               (requestHistory (submit B now timestamp input st)))]"
    unfolding h by (simp add: s renderResults_frame)
  have "displayed (submit B now timestamp input st) = displayed ?st1"
    by (simp add: s displayed_def)
  then show "displayed (submit B now timestamp input st) = map result_item (compute_elements B n)"
    by (simp add: renderResults_displayed)
qed

text \<open>
  C8, as stated, fails on the name of a field: the record the handler writes has the
  keys \<open>timestamp\<close>, \<open>action\<close>, \<open>input\<close>, \<open>elements\<close> and \<open>requestCount\<close>. It has
  no key \<open>elementCount\<close>; the number of computed elements is under \<open>elements\<close>.
\<close>

theorem audit_record_has_no_elementCount:
  "console (submit exact 0 ''1970-01-01T00:00:00.000Z'' ''1'' blank_page) =
     [(''[SECURITY AUDIT]'',
       [(''timestamp'', JString ''1970-01-01T00:00:00.000Z''),
        (''action'', JString ''CALCULATION_PERFORMED''),
        (''input'', JNumber (Num 1)),
        (''elements'', JNumber (Num 1)),
        (''requestCount'', JNumber (Num 1))])]
   \<and> map_of (snd (last (console (submit exact 0 ''1970-01-01T00:00:00.000Z'' ''1'' blank_page))))
        ''elementCount'' = None"
proof -
  have q: "requestHistory blank_page = []" "console blank_page = []"
    by (simp_all add: blank_page_def)
  have a: "allowed (fst (checkRateLimit 0 (requestHistory blank_page)))"
    by (simp add: checkRateLimit_allowed prune_def q MAX_REQUESTS_def)
  have v: "validateInput ''1'' = Valid InputValidated (Num 1)"
    by (simp add: validate_eval)
  have "console (submit exact 0 ''1970-01-01T00:00:00.000Z'' ''1'' blank_page) =
     [(''[SECURITY AUDIT]'',
       [(''timestamp'', JString ''1970-01-01T00:00:00.000Z''),
        (''action'', JString ''CALCULATION_PERFORMED''),
        (''input'', JNumber (Num 1)),
        (''elements'', JNumber (Num 1)),
        (''requestCount'', JNumber (Num 1))])]"
    unfolding submit_valid_console(1) [OF a v] submit_valid_console(3) [OF a v]
    by (simp add: audit_record_def compute_elements_map q prune_def)
  then show ?thesis
    by simp
qed

text \<open>
  C8, amended. A submit that passes the limiter and whose input validates to an integer
  \<open>n\<close> writes exactly one audit record to the console, with the keys \<open>timestamp\<close> (the
  string \<open>toISOString\<close> returned), \<open>action\<close> (\<open>CALCULATION_PERFORMED\<close>), \<open>input\<close>
  (\<open>n\<close>), \<open>elements\<close> (the number of computed elements, which is \<open>n\<close>, and they are the
  elements shown) and \<open>requestCount\<close> (the length of the limiter's store, this request
  included). A submit that is denied or whose input is invalid writes nothing.
\<close>

theorem audit_record_per_calculation:
  "(allowed (fst (checkRateLimit now (requestHistory st)))
      \<and> validateInput input = Valid m (Num n) \<longrightarrow>
      console (submit B now timestamp input st) = console st @
        [(''[SECURITY AUDIT]'',
          [(''timestamp'', JString timestamp),
           (''action'', JString ''CALCULATION_PERFORMED''),
           (''input'', JNumber (Num n)),
           (''elements'', JNumber (Num (int (length (compute_elements B (Num n)))))),
           (''requestCount'',
              JNumber (Num (int (length (requestHistory (submit B now timestamp input st))))))])]
      \<and> displayed (submit B now timestamp input st) = map result_item (compute_elements B (Num n))
      \<and> int (length (compute_elements B (Num n))) = n
      \<and> requestHistory (submit B now timestamp input st) = prune now (requestHistory st) @ [now])
   \<and> (\<not> allowed (fst (checkRateLimit now (requestHistory st))) \<or> \<not> valid (validateInput input) \<longrightarrow>
        console (submit B now timestamp input st) = console st)"
proof (intro conjI impI)
  assume "\<not> allowed (fst (checkRateLimit now (requestHistory st))) \<or> \<not> valid (validateInput input)"
  then show "console (submit B now timestamp input st) = console st"
  proof (cases "allowed (fst (checkRateLimit now (requestHistory st)))")
    case False
    then show ?thesis
      by (simp add: submit_denied showValidationMessage_frame)
  next
    case True
    moreover assume "\<not> allowed (fst (checkRateLimit now (requestHistory st))) \<or> \<not> valid (validateInput input)"
    ultimately obtain m' where "validateInput input = Invalid m'"
      by (cases "validateInput input") simp_all
    with True show ?thesis
      by (simp add: submit_invalid showValidationMessage_frame)
  qed
next
  assume h: "allowed (fst (checkRateLimit now (requestHistory st)))
      \<and> validateInput input = Valid m (Num n)"
  then have a: "allowed (fst (checkRateLimit now (requestHistory st)))"
    and v: "validateInput input = Valid m (Num n)"
    by simp_all
  show "console (submit B now timestamp input st) = console st @
        [(''[SECURITY AUDIT]'',
          [(''timestamp'', JString timestamp),
           (''action'', JString ''CALCULATION_PERFORMED''),
           (''input'', JNumber (Num n)),
           (''elements'', JNumber (Num (int (length (compute_elements B (Num n)))))),
           (''requestCount'',
              JNumber (Num (int (length (requestHistory (submit B now timestamp input st))))))])]"
    using submit_valid_console(1) [OF a v, of B timestamp] by (simp add: audit_record_def)
  show "displayed (submit B now timestamp input st) = map result_item (compute_elements B (Num n))"
    by (rule submit_valid_console(2) [OF a v])
  show "requestHistory (submit B now timestamp input st) = prune now (requestHistory st) @ [now]"
    by (rule submit_valid_console(3) [OF a v])
  have "1 \<le> n"
    using validateInput_Valid_range [OF v] by simp
  then show "int (length (compute_elements B (Num n))) = n"
    by (simp add: compute_elements_map)
qed

theorem audit_record_per_calculation_witness:
  "allowed (fst (checkRateLimit 5 (requestHistory blank_page)))
   \<and> validateInput ''2'' = Valid InputValidated (Num 2)
   \<and> console (submit exact 5 ''1970-01-01T00:00:00.005Z'' ''2'' blank_page) =
       [(''[SECURITY AUDIT]'',
         [(''timestamp'', JString ''1970-01-01T00:00:00.005Z''),
          (''action'', JString ''CALCULATION_PERFORMED''),
          (''input'', JNumber (Num 2)),
          (''elements'', JNumber (Num 2)),
          (''requestCount'', JNumber (Num 1))])]
   \<and> \<not> valid (validateInput ''abc'')
   \<and> console (submit exact 5 ''1970-01-01T00:00:00.005Z'' ''abc'' blank_page) = []"
proof -
  let ?s = "submit exact 5 ''1970-01-01T00:00:00.005Z'' ''2'' blank_page"
  have q: "requestHistory blank_page = []" "console blank_page = []"
    by (simp_all add: blank_page_def)
  have a: "allowed (fst (checkRateLimit 5 (requestHistory blank_page)))"
    by (simp add: checkRateLimit_allowed prune_def q MAX_REQUESTS_def)
  have v: "validateInput ''2'' = Valid InputValidated (Num 2)"
    by (simp add: validate_eval)
  have nv: "\<not> valid (validateInput ''abc'')"
    by (simp add: validate_eval)
  have "console ?s = console blank_page @
        [(''[SECURITY AUDIT]'',
          [(''timestamp'', JString ''1970-01-01T00:00:00.005Z''),
           (''action'', JString ''CALCULATION_PERFORMED''),
           (''input'', JNumber (Num 2)),
           (''elements'', JNumber (Num (int (length (compute_elements exact (Num 2)))))),
           (''requestCount'', JNumber (Num (int (length (requestHistory ?s)))))])]
      \<and> int (length (compute_elements exact (Num 2))) = 2
      \<and> requestHistory ?s = prune 5 (requestHistory blank_page) @ [5]"
    using audit_record_per_calculation
        [of 5 blank_page "''2''" InputValidated 2 exact "''1970-01-01T00:00:00.005Z''"] a v
    by blast
  moreover have "console (submit exact 5 ''1970-01-01T00:00:00.005Z'' ''abc'' blank_page)
      = console blank_page"
    using audit_record_per_calculation
        [of 5 blank_page "''abc''" InputValidated 2 exact "''1970-01-01T00:00:00.005Z''"] nv
    by blast
  ultimately show ?thesis
    using a v nv by (simp add: q prune_def)
qed

section \<open>The older script against js/app.js\<close>

lemma old_loop_concat:
  "old_loop B k n acc = acc @ concat (map (\<lambda>j. elements_old B j n) [k..n])"
proof (induction B k n acc rule: old_loop.induct)
  case (1 B k n innerHTML)
  show ?case
  proof (cases "k \<le> n")
    case True
    then have "[k..n] = k # [k + 1..n]"
      by (simp add: upto_rec1)
    with True 1 show ?thesis
      by (simp add: old_loop.simps [of B k n innerHTML])
  next
    case False
    then show ?thesis
      by (simp add: old_loop.simps [of B k n innerHTML])
  qed
qed

lemma ak_exact_1: "ak exact 1 1 = 2"
  by (simp add: ak_def exact_def)

text \<open>
  C9, as stated, fails on the value strings: the older script formats with
  \<open>toFixed(3)\<close> and js/app.js with \<open>toFixed(4)\<close>. At order 1 the older script writes
  \<open>2.000\<close> and js/app.js writes \<open>2.0000\<close>.
\<close>

theorem old_and_new_values_differ:
  "old_submit exact 1 = ''El inductor 1 vale 2.000<br>''
   \<and> map value_str (compute_elements exact (Num 1)) = [''2.0000'']
   \<and> map (\<lambda>e. text_textContent (result_item e)) (compute_elements exact (Num 1))
       = [''El inductor 1 vale 2.0000'']"
proof -
  have up: "[1..1] = [1::int]"
    by (simp add: upto_rec1)
  have "old_submit exact 1 = ''El inductor 1 vale 2.000<br>''"
    by (simp add: old_submit_def old_loop_concat up elements_old_def ak_exact_1 Let_def
        toFixed_eval int_to_string_def)
  moreover have "compute_elements exact (Num 1)
      = [\<lparr>type = ''inductor'', index = 1, value_str = ''2.0000''\<rparr>]"
    by (simp add: compute_elements_map up calculateElements_def ak_exact_1 Let_def toFixed_eval)
  ultimately show ?thesis
    by (simp add: result_item_def sanitizeHTML_labels int_to_string_def)
qed

text \<open>
  C9, amended. For every \<open>n\<close> both scripts run through \<open>k = 1, \<dots>, n\<close> in order and
  write, for each \<open>k\<close>, the same label (capacitor for even \<open>k\<close>, inductor for odd),
  the same index and the same number \<open>ak\<close>; the older script formats the number with
  \<open>toFixed(3)\<close> and ends each line with a line break element inside one markup string,
  while js/app.js formats it with \<open>toFixed(4)\<close> and puts each line in a text node.
\<close>

theorem old_and_new_lines:
  "old_submit B n =
     concat (map (\<lambda>k. ''El '' @ (if even k then ''capacitor'' else ''inductor'') @ '' ''
                        @ int_to_string k @ '' vale '' @ toFixed B 3 (ak B k n) @ ''<br>'') [1..n])
   \<and> map (\<lambda>e. text_textContent (result_item e)) (compute_elements B (Num n)) =
     map (\<lambda>k. ''El '' @ (if even k then ''capacitor'' else ''inductor'') @ '' ''
                 @ int_to_string k @ '' vale '' @ toFixed B 4 (ak B k n)) [1..n]"
proof -
  have line: "text_textContent (result_item (calculateElements B k n)) =
      ''El '' @ (if even k then ''capacitor'' else ''inductor'') @ '' ''
        @ int_to_string k @ '' vale '' @ toFixed B 4 (ak B k n)" for k
    by (simp add: result_item_def calculateElements_fields sanitizeHTML_labels)
  have "old_submit B n =
     concat (map (\<lambda>k. ''El '' @ (if even k then ''capacitor'' else ''inductor'') @ '' ''
                        @ int_to_string k @ '' vale '' @ toFixed B 3 (ak B k n) @ ''<br>'') [1..n])"
    by (simp add: old_submit_def old_loop_concat elements_old_def Let_def
        even_iff_mod_2_eq_zero cong: if_cong)
  moreover have "map (\<lambda>e. text_textContent (result_item e)) (compute_elements B (Num n)) =
     map (\<lambda>k. ''El '' @ (if even k then ''capacitor'' else ''inductor'') @ '' ''
                 @ int_to_string k @ '' vale '' @ toFixed B 4 (ak B k n)) [1..n]"
    by (simp only: compute_elements_map map_map o_def line)
  ultimately show ?thesis
    by blast
qed

end
